theory Spec2Isabelle
  imports Main "HOL-Library.Word"
begin

section \<open>JavaScript strings\<close>

text \<open>
  A JavaScript string is a finite sequence of 16-bit code units.  A string literal of the
  source that holds ASCII characters only is the list of their character codes.
\<close>

type_synonym code_unit = "16 word"
type_synonym jsstring = "code_unit list"

definition js :: "string \<Rightarrow> jsstring" where
  "js s = map (\<lambda>c. of_nat (of_char c)) s"

text \<open>
  \<^verbatim>\<open>String.prototype.trim\<close> removes the leading and the trailing run of white space
  and line terminators (ECMAScript, \<^verbatim>\<open>TrimString\<close>): TAB, VT, FF, SP, NBSP, ZWNBSP and
  the code points of the category Space\_Separator, all of them single code units, and LF,
  CR, LS, PS.
\<close>

definition isWhiteSpace :: "code_unit \<Rightarrow> bool" where
  "isWhiteSpace c \<longleftrightarrow>
     c = 0x0009 \<or> c = 0x000B \<or> c = 0x000C \<or> c = 0x0020 \<or> c = 0x00A0 \<or> c = 0xFEFF \<or>
     c = 0x1680 \<or> (0x2000 \<le> c \<and> c \<le> 0x200A) \<or> c = 0x202F \<or> c = 0x205F \<or> c = 0x3000"

definition isLineTerminator :: "code_unit \<Rightarrow> bool" where
  "isLineTerminator c \<longleftrightarrow> c = 0x000A \<or> c = 0x000D \<or> c = 0x2028 \<or> c = 0x2029"

definition isTrimmed :: "code_unit \<Rightarrow> bool" where
  "isTrimmed c \<longleftrightarrow> isWhiteSpace c \<or> isLineTerminator c"

definition trim :: "jsstring \<Rightarrow> jsstring" where
  "trim s = rev (dropWhile isTrimmed (rev (dropWhile isTrimmed s)))"

section \<open>The session store\<close>

text \<open>
  The state object of \<^verbatim>\<open>useSessionStore\<close>.  Its two function-valued fields are
  the operations below; no operation assigns them, so they are not fields of the record.
\<close>

record SessionState =
  storeId :: jsstring
  accessToken :: "jsstring option"
  isLoggedIn :: bool

text \<open>
  A call of \<^verbatim>\<open>console.warn\<close> or \<^verbatim>\<open>console.error\<close>, with its arguments.  The second
  argument of \<^verbatim>\<open>console.error\<close> is the value that was thrown, of any type.
\<close>

datatype 'e console_call =
    ConsoleWarn jsstring
  | ConsoleError jsstring 'e

text \<open>What the operations read and write: the store's state and the console.\<close>

record 'e world =
  session :: SessionState
  console :: "'e console_call list"

definition initial_session :: SessionState where
  "initial_session =
     \<lparr>storeId = js ''SESSION_STORE_SINGLETON'', accessToken = None, isLoggedIn = False\<rparr>"

definition initial_world :: "'e world" where
  "initial_world = \<lparr>session = initial_session, console = []\<rparr>"

text \<open>
  \<^verbatim>\<open>set(partial)\<close> merges the fields of \<^verbatim>\<open>partial\<close> into the state and leaves the
  others: a record update.  A string is truthy when it is not empty.
\<close>

definition loginWithDeviceCode :: "jsstring \<Rightarrow> 'e world \<Rightarrow> 'e world" where
  "loginWithDeviceCode code w =
     (if code \<noteq> [] \<and> length (trim code) > 0 then
        let fakeToken = js ''mock_access_token_'' @ trim code
        in w\<lparr>session := (session w)\<lparr>accessToken := Some fakeToken, isLoggedIn := True\<rparr>\<rparr>
      else w\<lparr>console := console w @ [ConsoleWarn (js ''No device code entered'')]\<rparr>)"

definition logout :: "'e world \<Rightarrow> 'e world" where
  "logout w = w\<lparr>session := (session w)\<lparr>accessToken := None, isLoggedIn := False\<rparr>\<rparr>"

text \<open>The invariant of the data model: logged in exactly when a token is held.\<close>

definition session_invariant :: "SessionState \<Rightarrow> bool" where
  "session_invariant s \<longleftrightarrow> (isLoggedIn s \<longleftrightarrow> accessToken s \<noteq> None)"

section \<open>The tournament loader\<close>

text \<open>
  The state of a promise once the event loop has run: fulfilled with a value, rejected with a
  reason, or never settled.  A call either returns or throws.  The Tauri function
  \<^verbatim>\<open>invoke\<close> is outside the repository; it is a parameter of the loader, from the name
  of the command to what the call does.
\<close>

datatype ('a, 'e) promise = Fulfilled 'a | Rejected 'e | Pending

datatype ('a, 'e) completion = Returns 'a | Throws 'e

type_synonym 'e invoke = "jsstring \<Rightarrow> ((jsstring list, 'e) promise, 'e) completion"

text \<open>
  The body of the \<^verbatim>\<open>async\<close> function: the \<^verbatim>\<open>try\<close> block covers the call and the
  \<^verbatim>\<open>await\<close>, so the handler runs when the call throws and when the promise rejects.
  Awaiting a promise that never settles never resumes the function.
\<close>

definition loadTournamentNames ::
    "'e invoke \<Rightarrow> 'e world \<Rightarrow> (jsstring list, 'e) promise \<times> 'e world" where
  "loadTournamentNames invoke w =
     (case invoke (js ''get_tournaments'') of
        Returns (Fulfilled names) \<Rightarrow> (Fulfilled names, w)
      | Returns (Rejected err) \<Rightarrow>
          (Fulfilled [],
           w\<lparr>console := console w @ [ConsoleError (js ''Failed to load tournaments:'') err]\<rparr>)
      | Returns Pending \<Rightarrow> (Pending, w)
      | Throws err \<Rightarrow>
          (Fulfilled [],
           w\<lparr>console := console w @ [ConsoleError (js ''Failed to load tournaments:'') err]\<rparr>))"

section \<open>Reachable states\<close>

text \<open>
  The store is created once, with the initial state, and the three operations are the only
  code that writes the store or the console.
\<close>

inductive reachable :: "'e world \<Rightarrow> bool" where
  created: "reachable initial_world"
| login: "reachable w \<Longrightarrow> reachable (loginWithDeviceCode code w)"
| logged_out: "reachable w \<Longrightarrow> reachable (logout w)"
| loaded: "reachable w \<Longrightarrow> reachable (snd (loadTournamentNames invoke w))"

section \<open>The route tables\<close>

datatype screen = Login | Dashboard | Tournaments

text \<open>
  The element of a route: a screen, or \<^verbatim>\<open><Navigate to=... replace />\<close>, which moves the
  location to its target.
\<close>

datatype element = Screen screen | Navigate jsstring

type_synonym route = "jsstring \<times> element"

text \<open>The \<^verbatim>\<open>Routes\<close> of \<^verbatim>\<open>App\<close> in \<^verbatim>\<open>desktop/src/App.tsx\<close>, under a \<^verbatim>\<open>HashRouter\<close>.\<close>

definition App_HashRouter_routes :: "route list" where
  "App_HashRouter_routes =
     [(js ''/'', Navigate (js ''/dashboard'')),
      (js ''/dashboard'', Screen Dashboard),
      (js ''/tournaments'', Screen Tournaments),
      (js ''/login'', Screen Login),
      (js ''*'', Navigate (js ''/dashboard''))]"

text \<open>The \<^verbatim>\<open>Routes\<close> of the second \<^verbatim>\<open>App\<close>, under a \<^verbatim>\<open>BrowserRouter\<close>.\<close>

definition App_BrowserRouter_routes :: "route list" where
  "App_BrowserRouter_routes =
     [(js ''/'', Navigate (js ''/dashboard'')),
      (js ''/login'', Screen Login),
      (js ''/dashboard'', Screen Dashboard),
      (js ''/tournaments'', Screen Tournaments)]"

text \<open>
  The router is outside the repository; what follows is its matching (react-router 6:
  \<^verbatim>\<open>matchRoutes\<close>, \<^verbatim>\<open>decodePath\<close>, \<^verbatim>\<open>compilePath\<close>, \<^verbatim>\<open>matchPath\<close>) for the patterns that
  the tables hold, which have no parameter and no character that a regular expression
  escapes.  No route of either table sets \<^verbatim>\<open>caseSensitive\<close>.
\<close>

subsection \<open>Decoding the path\<close>

definition isSlash :: "code_unit \<Rightarrow> bool" where
  "isSlash c \<longleftrightarrow> c = 0x2F"

text \<open>
  \<^verbatim>\<open>decodeURIComponent\<close> (ECMAScript, \<^verbatim>\<open>Decode\<close>): a percent sign is followed by two
  hexadecimal digits, an octet; an octet below 128 is a code unit, and an octet with two to
  four leading one bits starts a UTF-8 sequence whose other octets are percent-encoded as
  well.  \<open>None\<close> is the \<^verbatim>\<open>URIError\<close>.
\<close>

definition hexDigit :: "code_unit \<Rightarrow> nat option" where
  "hexDigit c =
     (if 0x30 \<le> c \<and> c \<le> 0x39 then Some (unat c - 0x30)
      else if 0x41 \<le> c \<and> c \<le> 0x46 then Some (unat c - 0x41 + 10)
      else if 0x61 \<le> c \<and> c \<le> 0x66 then Some (unat c - 0x61 + 10)
      else None)"

definition parseHexOctet :: "code_unit \<Rightarrow> code_unit \<Rightarrow> nat option" where
  "parseHexOctet h1 h2 =
     (case (hexDigit h1, hexDigit h2) of
        (Some a, Some b) \<Rightarrow> Some (16 * a + b)
      | _ \<Rightarrow> None)"

text \<open>The next \<open>n\<close> percent-encoded octets of a string, and the rest of the string.\<close>

fun readOctets :: "nat \<Rightarrow> jsstring \<Rightarrow> (nat list \<times> jsstring) option" where
  "readOctets 0 s = Some ([], s)"
| "readOctets (Suc n) s =
     (case s of
        p # h1 # h2 # rest \<Rightarrow>
          (if p = 0x25 then
             (case parseHexOctet h1 h2 of
                None \<Rightarrow> None
              | Some b \<Rightarrow>
                  (case readOctets n rest of
                     None \<Rightarrow> None
                   | Some (bs, r) \<Rightarrow> Some (b # bs, r)))
           else None)
      | _ \<Rightarrow> None)"

definition leadingOnes :: "nat \<Rightarrow> nat" where
  "leadingOnes b =
     (if b < 0x80 then 0 else if b < 0xC0 then 1 else if b < 0xE0 then 2
      else if b < 0xF0 then 3 else if b < 0xF8 then 4 else 5)"

definition continuation :: "nat \<Rightarrow> bool" where
  "continuation b \<longleftrightarrow> 0x80 \<le> b \<and> b < 0xC0"

text \<open>
  The code point of a UTF-8 sequence of two to four octets, if the sequence is valid: the
  shortest encoding of a code point up to \<^verbatim>\<open>U+10FFFF\<close> that is no surrogate.
\<close>

fun utf8CodePoint :: "nat list \<Rightarrow> nat option" where
  "utf8CodePoint [b0, b1] =
     (let v = (b0 - 0xC0) * 64 + (b1 - 0x80)
      in if continuation b1 \<and> 0x80 \<le> v then Some v else None)"
| "utf8CodePoint [b0, b1, b2] =
     (let v = (b0 - 0xE0) * 4096 + (b1 - 0x80) * 64 + (b2 - 0x80)
      in if continuation b1 \<and> continuation b2 \<and> 0x800 \<le> v \<and>
            \<not> (0xD800 \<le> v \<and> v \<le> 0xDFFF)
         then Some v else None)"
| "utf8CodePoint [b0, b1, b2, b3] =
     (let v = (b0 - 0xF0) * 262144 + (b1 - 0x80) * 4096 + (b2 - 0x80) * 64 + (b3 - 0x80)
      in if continuation b1 \<and> continuation b2 \<and> continuation b3 \<and>
            0x10000 \<le> v \<and> v \<le> 0x10FFFF
         then Some v else None)"
| "utf8CodePoint bs = None"

definition utf16EncodeCodePoint :: "nat \<Rightarrow> jsstring" where
  "utf16EncodeCodePoint v =
     (if v < 0x10000 then [of_nat v]
      else [of_nat (0xD800 + (v - 0x10000) div 1024),
            of_nat (0xDC00 + (v - 0x10000) mod 1024)])"

function decodeURIComponent :: "jsstring \<Rightarrow> jsstring option" where
  "decodeURIComponent [] = Some []"
| "decodeURIComponent (c # cs) =
     (if c \<noteq> 0x25 then map_option ((#) c) (decodeURIComponent cs)
      else
        (case cs of
           h1 # h2 # rest \<Rightarrow>
             (case parseHexOctet h1 h2 of
                None \<Rightarrow> None
              | Some b \<Rightarrow>
                  if leadingOnes b = 0 then map_option ((#) (of_nat b)) (decodeURIComponent rest)
                  else if leadingOnes b = 1 \<or> 4 < leadingOnes b then None
                  else
                    (case readOctets (leadingOnes b - 1) rest of
                       None \<Rightarrow> None
                     | Some (bs, rest') \<Rightarrow>
                         (case utf8CodePoint (b # bs) of
                            None \<Rightarrow> None
                          | Some v \<Rightarrow>
                              map_option ((@) (utf16EncodeCodePoint v))
                                (decodeURIComponent rest'))))
         | _ \<Rightarrow> None))"
  by pat_completeness auto
termination
proof -
  have shorter: "length r \<le> length s" if "readOctets n s = Some (bs, r)" for n s bs r
    using that
  proof (induction n arbitrary: s bs r)
    case 0
    then show ?case by simp
  next
    case (Suc n)
    then show ?case
      by (fastforce split: list.splits if_splits option.splits)
  qed
  show ?thesis
    by (relation "measure length") (auto dest: shorter)
qed

text \<open>\<^verbatim>\<open>value.split("/")\<close> and \<^verbatim>\<open>segments.join("/")\<close>.\<close>

fun split_slash :: "jsstring \<Rightarrow> jsstring list" where
  "split_slash [] = [[]]"
| "split_slash (c # cs) =
     (if isSlash c then [] # split_slash cs
      else (case split_slash cs of
              seg # segs \<Rightarrow> (c # seg) # segs
            | [] \<Rightarrow> [[c]]))"

fun join_slash :: "jsstring list \<Rightarrow> jsstring" where
  "join_slash [] = []"
| "join_slash [seg] = seg"
| "join_slash (seg # segs) = seg @ 0x2F # join_slash segs"

text \<open>\<^verbatim>\<open>segment.replace(/\//g, "%2F")\<close>: a slash that was decoded is encoded again.\<close>

definition replaceSlash :: "jsstring \<Rightarrow> jsstring" where
  "replaceSlash seg = concat (map (\<lambda>c. if isSlash c then js ''%2F'' else [c]) seg)"

text \<open>
  \<^verbatim>\<open>decodePath\<close>: every segment of the path is decoded; when the decoding of a segment
  throws, the path is taken as it is.
\<close>

definition decodePath :: "jsstring \<Rightarrow> jsstring" where
  "decodePath value =
     (case those (map decodeURIComponent (split_slash value)) of
        None \<Rightarrow> value
      | Some segs \<Rightarrow> join_slash (map replaceSlash segs))"

text \<open>The path that is matched: \<^verbatim>\<open>decodePath(location.pathname || "/")\<close>.\<close>

definition decodedPathname :: "jsstring \<Rightarrow> jsstring" where
  "decodedPathname pathname = decodePath (if pathname = [] then js ''/'' else pathname)"

subsection \<open>Matching a pattern\<close>

text \<open>
  A pattern is compiled to a regular expression with the flag \<^verbatim>\<open>i\<close>, which compares code
  units after \<^verbatim>\<open>Canonicalize\<close>.  That maps the ASCII letters to upper case and never maps
  a code unit outside ASCII to one inside, so against a pattern of ASCII characters only
  the ASCII letters matter.
\<close>

definition canonicalize :: "code_unit \<Rightarrow> code_unit" where
  "canonicalize c = (if 0x61 \<le> c \<and> c \<le> 0x7A then c - 0x20 else c)"

definition stripTrailing :: "jsstring \<Rightarrow> jsstring" where
  "stripTrailing s = rev (dropWhile isSlash (rev s))"

definition endsWithStar :: "jsstring \<Rightarrow> bool" where
  "endsWithStar path \<longleftrightarrow> path \<noteq> [] \<and> last path = 0x2A"

text \<open>
  The literal part of the expression: the pattern without a star at its end and without
  the slashes before that (\<^verbatim>\<open>path.replace(/\/*\*?$/, "")\<close>), its leading slashes replaced
  by one slash (\<^verbatim>\<open>.replace(/^\/*/, "/")\<close>).
\<close>

definition patternLiteral :: "jsstring \<Rightarrow> jsstring" where
  "patternLiteral path =
     0x2F # dropWhile isSlash
              (stripTrailing (if endsWithStar path then butlast path else path))"

text \<open>
  \<^verbatim>\<open>matchPath\<close> with \<^verbatim>\<open>end = true\<close>.  After the literal part the expression ends in
  \<^verbatim>\<open>\/*$\<close> for a pattern without a star, so trailing slashes are ignored; in \<^verbatim>\<open>(.*)$\<close>
  for the patterns \<^verbatim>\<open>*\<close> and \<^verbatim>\<open>/*\<close>; and in \<^verbatim>\<open>(?:\/(.+)|\/*)$\<close> for another pattern
  with a star.  The dot of a regular expression matches no line terminator.
\<close>

definition matchPath :: "jsstring \<Rightarrow> jsstring \<Rightarrow> bool" where
  "matchPath path pathname \<longleftrightarrow>
     (let lit = patternLiteral path;
          rest = drop (length lit) pathname
      in map canonicalize (take (length lit) pathname) = map canonicalize lit \<and>
         (if endsWithStar path then
            (if path = js ''*'' \<or> path = js ''/*'' then \<not> list_ex isLineTerminator rest
             else list_all isSlash rest \<or>
                  (case rest of
                     c # cs \<Rightarrow> isSlash c \<and> cs \<noteq> [] \<and> \<not> list_ex isLineTerminator cs
                   | [] \<Rightarrow> False))
          else list_all isSlash rest))"

subsection \<open>Matching a table\<close>

text \<open>
  The router tries the routes by rank and takes the first that matches.  In both tables
  the three named patterns rank first, in the order of the table, then the root, then the
  splat; the root and a named pattern never match the same path, so the first match in the
  order of the table is the same route (\<open>ranked_order\<close> below).
\<close>

fun matchRouteBranches :: "route list \<Rightarrow> jsstring \<Rightarrow> element option" where
  "matchRouteBranches [] pathname = None"
| "matchRouteBranches ((path, el) # routes) pathname =
     (if matchPath path pathname then Some el else matchRouteBranches routes pathname)"

definition matchRoutes :: "route list \<Rightarrow> jsstring \<Rightarrow> element option" where
  "matchRoutes routes pathname = matchRouteBranches routes (decodedPathname pathname)"

text \<open>
  What is on display after the location has settled: the final path and the screen there,
  if a route matched.  A \<^verbatim>\<open>Navigate\<close> moves the location and the table is matched again;
  the number of such moves is bounded by the fuel, and \<open>None\<close> is running out of it.
\<close>

fun display :: "nat \<Rightarrow> route list \<Rightarrow> jsstring \<Rightarrow> (jsstring \<times> screen option) option" where
  "display 0 routes pathname = None"
| "display (Suc fuel) routes pathname =
     (case matchRoutes routes pathname of
        None \<Rightarrow> Some (pathname, None)
      | Some (Screen s) \<Rightarrow> Some (pathname, Some s)
      | Some (Navigate target) \<Rightarrow> display fuel routes target)"

text \<open>
  A normal form of paths, for stating what a static pattern matches: the path without its
  trailing slashes, its ASCII letters in upper case.
\<close>

definition route_key :: "jsstring \<Rightarrow> jsstring" where
  "route_key pathname = map canonicalize (stripTrailing pathname)"

section \<open>Trimming\<close>

lemma all_dropWhile_iff:
  "(\<forall>x\<in>set (dropWhile P s). P x) \<longleftrightarrow> (\<forall>x\<in>set s. P x)"
proof
  assume a: "\<forall>x\<in>set (dropWhile P s). P x"
  have "dropWhile P s = []"
  proof (rule ccontr)
    assume n: "dropWhile P s \<noteq> []"
    then have "\<not> P (hd (dropWhile P s))" by (rule hd_dropWhile)
    moreover have "hd (dropWhile P s) \<in> set (dropWhile P s)" using n by (rule hd_in_set)
    ultimately show False using a by blast
  qed
  then show "\<forall>x\<in>set s. P x" by (simp only: dropWhile_eq_Nil_conv)
next
  assume "\<forall>x\<in>set s. P x"
  then show "\<forall>x\<in>set (dropWhile P s). P x" by (blast dest: set_dropWhileD)
qed

text \<open>A string trims to the empty string exactly when all its code units are trimmed away.\<close>

lemma trim_Nil_iff: "trim s = [] \<longleftrightarrow> (\<forall>c\<in>set s. isTrimmed c)"
  by (simp add: trim_def all_dropWhile_iff)

lemma trim_nonempty_arg: "trim code \<noteq> [] \<Longrightarrow> code \<noteq> []"
  by (auto simp: trim_def)

lemmas trim_eval = js_def trim_def isTrimmed_def isWhiteSpace_def isLineTerminator_def

section \<open>The two branches of the login\<close>

lemma login_accepts:
  "trim code \<noteq> [] \<Longrightarrow>
   loginWithDeviceCode code w =
     w\<lparr>session := (session w)\<lparr>accessToken := Some (js ''mock_access_token_'' @ trim code),
                                isLoggedIn := True\<rparr>\<rparr>"
  by (frule trim_nonempty_arg) (simp add: loginWithDeviceCode_def)

lemma login_declines:
  "trim code = [] \<Longrightarrow>
   loginWithDeviceCode code w =
     w\<lparr>console := console w @ [ConsoleWarn (js ''No device code entered'')]\<rparr>"
  by (simp add: loginWithDeviceCode_def)

lemma load_session: "session (snd (loadTournamentNames invoke w)) = session w"
  by (simp add: loadTournamentNames_def split: completion.splits promise.splits)

section \<open>The session store: invariant\<close>

text \<open>
  C1.  The invariant of the session store, \<open>isLoggedIn\<close> is true if and only if
  \<open>accessToken\<close> is not null, holds in the initial state, is preserved by every call of
  \<open>loginWithDeviceCode\<close>, whatever the code, and by every call of \<open>logout\<close>, and so holds
  in every reachable state.
\<close>

theorem session_invariant_reachable:
  "session_invariant initial_session \<and>
   (session_invariant (session w) \<longrightarrow>
      session_invariant (session (loginWithDeviceCode code w))) \<and>
   (session_invariant (session w) \<longrightarrow> session_invariant (session (logout w))) \<and>
   (reachable w \<longrightarrow> session_invariant (session w))"
proof -
  have init: "session_invariant initial_session"
    by (simp add: session_invariant_def initial_session_def)
  have pres_login: "session_invariant (session (loginWithDeviceCode c v))"
    if "session_invariant (session v)" for c and v :: "'e world"
  proof (cases "trim c = []")
    case True
    then show ?thesis using that by (simp add: login_declines)
  next
    case False
    then show ?thesis by (simp add: login_accepts session_invariant_def)
  qed
  have pres_logout: "session_invariant (session (logout v))" for v :: "'e world"
    by (simp add: logout_def session_invariant_def)
  have "session_invariant (session w)" if "reachable w"
    using that
  proof (induction rule: reachable.induct)
    case created
    show ?case using init by (simp add: initial_world_def)
  next
    case (login w code)
    then show ?case by (simp add: pres_login)
  next
    case (logged_out w)
    show ?case by (rule pres_logout)
  next
    case (loaded w invoke)
    then show ?case by (simp add: load_session)
  qed
  with init pres_login pres_logout show ?thesis by blast
qed

theorem session_invariant_reachable_witness:
  "reachable (loginWithDeviceCode (js ''ABC123-XYZ'') (initial_world :: unit world)) \<and>
   session_invariant
     (session (loginWithDeviceCode (js ''ABC123-XYZ'') (initial_world :: unit world))) \<and>
   session_invariant
     (session (loginWithDeviceCode (js '' '')
        (loginWithDeviceCode (js ''ABC123-XYZ'') (initial_world :: unit world)))) \<and>
   session_invariant
     (session (logout (loginWithDeviceCode (js ''ABC123-XYZ'') (initial_world :: unit world))))"
proof -
  have r: "reachable (loginWithDeviceCode (js ''ABC123-XYZ'') (initial_world :: unit world))"
    by (rule reachable.login) (rule reachable.created)
  from session_invariant_reachable
         [of "loginWithDeviceCode (js ''ABC123-XYZ'') (initial_world :: unit world)" "js '' ''"] r
  show ?thesis by blast
qed

section \<open>The session store: login\<close>

text \<open>
  C2.  For every code whose trimmed form is not empty, after \<open>loginWithDeviceCode code\<close>
  the store is logged in and its token is the fixed prefix followed by the trimmed code.  In
  particular the code \<^verbatim>\<open>ABC123-XYZ\<close> gives the token \<^verbatim>\<open>mock_access_token_ABC123-XYZ\<close>,
  from any state.
\<close>

theorem login_nonblank:
  "(trim code \<noteq> [] \<longrightarrow>
      isLoggedIn (session (loginWithDeviceCode code w)) = True \<and>
      accessToken (session (loginWithDeviceCode code w)) =
        Some (js ''mock_access_token_'' @ trim code)) \<and>
   isLoggedIn (session (loginWithDeviceCode (js ''ABC123-XYZ'') w)) = True \<and>
   accessToken (session (loginWithDeviceCode (js ''ABC123-XYZ'') w)) =
     Some (js ''mock_access_token_ABC123-XYZ'')"
proof -
  have general: "isLoggedIn (session (loginWithDeviceCode c w)) = True \<and>
      accessToken (session (loginWithDeviceCode c w)) = Some (js ''mock_access_token_'' @ trim c)"
    if "trim c \<noteq> []" for c
    using that by (simp add: login_accepts)
  have t: "trim (js ''ABC123-XYZ'') = js ''ABC123-XYZ''"
    by (simp add: trim_eval)
  have ne: "js ''ABC123-XYZ'' \<noteq> []"
    by (simp add: js_def)
  have cat: "js ''mock_access_token_'' @ js ''ABC123-XYZ'' = js ''mock_access_token_ABC123-XYZ''"
    by (simp add: js_def)
  from general [of "js ''ABC123-XYZ''"] t ne cat
  have "isLoggedIn (session (loginWithDeviceCode (js ''ABC123-XYZ'') w)) = True \<and>
        accessToken (session (loginWithDeviceCode (js ''ABC123-XYZ'') w)) =
          Some (js ''mock_access_token_ABC123-XYZ'')"
    by simp
  with general show ?thesis by blast
qed

text \<open>A code with white space around it: the token is built from the trimmed code.\<close>

theorem login_nonblank_witness:
  "trim (js ''  ABC123-XYZ '') \<noteq> [] \<and>
   isLoggedIn
     (session (loginWithDeviceCode (js ''  ABC123-XYZ '') (initial_world :: unit world))) = True \<and>
   accessToken
     (session (loginWithDeviceCode (js ''  ABC123-XYZ '') (initial_world :: unit world))) =
     Some (js ''mock_access_token_ABC123-XYZ'')"
proof -
  have t: "trim (js ''  ABC123-XYZ '') = js ''ABC123-XYZ''"
    by (simp add: trim_eval)
  have ne: "js ''ABC123-XYZ'' \<noteq> []"
    by (simp add: js_def)
  have cat: "js ''mock_access_token_'' @ js ''ABC123-XYZ'' = js ''mock_access_token_ABC123-XYZ''"
    by (simp add: js_def)
  from login_nonblank [of "js ''  ABC123-XYZ ''" "initial_world :: unit world"] t ne cat
  show ?thesis by simp
qed

text \<open>
  C3.  For every code that is empty or holds white space only, \<open>loginWithDeviceCode code\<close>
  leaves the whole session state as it was and only emits a diagnostic: the world after the
  call is the world before it with one warning more on the console.  The operation has no
  failing branch, so no error reaches the caller.
\<close>

theorem login_blank_noop:
  "(\<forall>c\<in>set code. isTrimmed c) \<Longrightarrow>
   session (loginWithDeviceCode code w) = session w \<and>
   loginWithDeviceCode code w =
     w\<lparr>console := console w @ [ConsoleWarn (js ''No device code entered'')]\<rparr>"
proof -
  assume "\<forall>c\<in>set code. isTrimmed c"
  then have "trim code = []" by (simp only: trim_Nil_iff)
  then show ?thesis by (simp add: login_declines)
qed

text \<open>Three spaces: every code unit of the code is trimmed away.\<close>

theorem login_blank_noop_witness:
  "list_all isTrimmed (js ''   '') \<and>
   session (loginWithDeviceCode (js ''   '') (initial_world :: unit world)) = initial_session \<and>
   loginWithDeviceCode (js ''   '') (initial_world :: unit world) =
     \<lparr>session = initial_session, console = [ConsoleWarn (js ''No device code entered'')]\<rparr>"
proof -
  have b: "\<forall>c\<in>set (js ''   ''). isTrimmed c"
    by (simp add: trim_eval)
  from login_blank_noop [OF b, of "initial_world :: unit world"] b
  show ?thesis by (simp add: initial_world_def list_all_iff)
qed

text \<open>
  C8.  Logging in again overwrites: for all codes \<open>a\<close> and \<open>b\<close> with \<open>b\<close> not blank, the
  session state after \<open>loginWithDeviceCode a\<close> and then \<open>loginWithDeviceCode b\<close> is the
  session state after \<open>loginWithDeviceCode b\<close> alone, from any state; the store is logged in
  and holds the token of the second call.
\<close>

theorem relogin_overwrites:
  "trim b \<noteq> [] \<Longrightarrow>
   session (loginWithDeviceCode b (loginWithDeviceCode a w)) =
     session (loginWithDeviceCode b w) \<and>
   isLoggedIn (session (loginWithDeviceCode b (loginWithDeviceCode a w))) = True \<and>
   accessToken (session (loginWithDeviceCode b (loginWithDeviceCode a w))) =
     Some (js ''mock_access_token_'' @ trim b)"
proof (cases "trim a = []")
  case True
  assume "trim b \<noteq> []"
  with True show ?thesis by (simp add: login_accepts login_declines)
next
  case False
  assume "trim b \<noteq> []"
  with False show ?thesis by (simp add: login_accepts)
qed

theorem relogin_overwrites_witness:
  "trim (js ''SECOND'') \<noteq> [] \<and>
   session (loginWithDeviceCode (js ''SECOND'')
      (loginWithDeviceCode (js ''FIRST'') (initial_world :: unit world))) =
     session (loginWithDeviceCode (js ''SECOND'') (initial_world :: unit world)) \<and>
   accessToken (session (loginWithDeviceCode (js ''SECOND'')
      (loginWithDeviceCode (js ''FIRST'') (initial_world :: unit world)))) =
     Some (js ''mock_access_token_SECOND'')"
proof -
  have t: "trim (js ''SECOND'') = js ''SECOND''"
    by (simp add: trim_eval)
  have n: "trim (js ''SECOND'') \<noteq> []"
    by (simp add: trim_eval)
  have cat: "js ''mock_access_token_'' @ js ''SECOND'' = js ''mock_access_token_SECOND''"
    by (simp add: js_def)
  note h = relogin_overwrites [OF n, of "js ''FIRST''" "initial_world :: unit world"]
  from h have same: "session (loginWithDeviceCode (js ''SECOND'')
      (loginWithDeviceCode (js ''FIRST'') (initial_world :: unit world))) =
     session (loginWithDeviceCode (js ''SECOND'') (initial_world :: unit world))"
    by (rule conjunct1)
  from h have "accessToken (session (loginWithDeviceCode (js ''SECOND'')
      (loginWithDeviceCode (js ''FIRST'') (initial_world :: unit world)))) =
     Some (js ''mock_access_token_'' @ trim (js ''SECOND''))"
    by (rule conjunct2 [THEN conjunct2])
  then have token: "accessToken (session (loginWithDeviceCode (js ''SECOND'')
      (loginWithDeviceCode (js ''FIRST'') (initial_world :: unit world)))) =
     Some (js ''mock_access_token_SECOND'')"
    by (simp only: t cat)
  from n same token show ?thesis by (intro conjI)
qed

section \<open>The session store: logout and frame\<close>

text \<open>
  C4.  After \<open>logout\<close> the token is null and the store is logged out, whatever the state
  before: the operation has no precondition.
\<close>

theorem logout_postcondition:
  "accessToken (session (logout w)) = None \<and> isLoggedIn (session (logout w)) = False"
  by (simp add: logout_def)

text \<open>
  C7.  \<open>logout\<close> is idempotent: from every state, calling it twice in a row gives the state
  that calling it once gives.
\<close>

theorem logout_idempotent: "logout (logout w) = logout w"
  by (simp add: logout_def)

text \<open>
  C10.  Neither \<open>loginWithDeviceCode\<close>, with any code, nor \<open>logout\<close> changes the
  \<open>storeId\<close> of the store: the session state after either operation is the state before it
  in every field but \<open>accessToken\<close> and \<open>isLoggedIn\<close>.
\<close>

theorem storeId_frame:
  "storeId (session (loginWithDeviceCode code w)) = storeId (session w) \<and>
   storeId (session (logout w)) = storeId (session w) \<and>
   session (loginWithDeviceCode code w) =
     (session w)\<lparr>accessToken := accessToken (session (loginWithDeviceCode code w)),
                 isLoggedIn := isLoggedIn (session (loginWithDeviceCode code w))\<rparr> \<and>
   session (logout w) =
     (session w)\<lparr>accessToken := accessToken (session (logout w)),
                 isLoggedIn := isLoggedIn (session (logout w))\<rparr>"
proof (cases "trim code = []")
  case True
  then show ?thesis by (simp add: login_declines logout_def)
next
  case False
  then show ?thesis by (simp add: login_accepts logout_def)
qed

section \<open>The tournament loader: results\<close>

text \<open>
  C5.  \<open>loadTournamentNames\<close> never rejects and never throws to its caller, whatever the
  external \<^verbatim>\<open>get_tournaments\<close> call does: its promise is never a rejected one, and when
  the external call throws or its promise rejects, for any reason, the loader logs one
  diagnostic and its promise is fulfilled with the empty sequence.
\<close>

theorem load_never_rejects:
  "fst (loadTournamentNames invoke w) \<noteq> Rejected e \<and>
   (invoke (js ''get_tournaments'') = Throws err \<or>
    invoke (js ''get_tournaments'') = Returns (Rejected err) \<longrightarrow>
      loadTournamentNames invoke w =
        (Fulfilled [],
         w\<lparr>console := console w @ [ConsoleError (js ''Failed to load tournaments:'') err]\<rparr>))"
  by (auto simp: loadTournamentNames_def split: completion.splits promise.splits)

text \<open>A rejecting call and a throwing call, each with a string as its reason.\<close>

theorem load_never_rejects_witness:
  "loadTournamentNames (\<lambda>cmd. Returns (Rejected (js ''database is locked'')))
       (initial_world :: jsstring world) =
     (Fulfilled [],
      \<lparr>session = initial_session,
       console = [ConsoleError (js ''Failed to load tournaments:'')
                    (js ''database is locked'')]\<rparr>) \<and>
   loadTournamentNames (\<lambda>cmd. Throws (js ''no ipc''))
       (initial_world :: jsstring world) =
     (Fulfilled [],
      \<lparr>session = initial_session,
       console = [ConsoleError (js ''Failed to load tournaments:'') (js ''no ipc'')]\<rparr>)"
  using load_never_rejects
          [of "\<lambda>cmd. Returns (Rejected (js ''database is locked''))"
              "initial_world :: jsstring world" "[]" "js ''database is locked''"]
        load_never_rejects
          [of "\<lambda>cmd. Throws (js ''no ipc'')"
              "initial_world :: jsstring world" "[]" "js ''no ipc''"]
  by (simp add: initial_world_def)

text \<open>
  C6.  For every sequence of strings that the external \<^verbatim>\<open>get_tournaments\<close> call returns,
  \<open>loadTournamentNames\<close> returns that very sequence, element for element and in the same
  order: nothing is filtered, deduplicated, sorted or otherwise changed, and nothing is logged.
\<close>

theorem load_passes_through:
  "invoke (js ''get_tournaments'') = Returns (Fulfilled names) \<Longrightarrow>
   loadTournamentNames invoke w = (Fulfilled names, w)"
  by (simp add: loadTournamentNames_def)

text \<open>A sequence that is not sorted and holds a name twice comes back as it is.\<close>

theorem load_passes_through_witness:
  "loadTournamentNames
     (\<lambda>cmd. if cmd = js ''get_tournaments''
            then Returns (Fulfilled [js ''Winter Cup'', js ''Spring Open'', js ''Winter Cup''])
            else Throws ())
     initial_world =
   (Fulfilled [js ''Winter Cup'', js ''Spring Open'', js ''Winter Cup''], initial_world)"
  by (rule load_passes_through) simp

section \<open>The route tables: resolution\<close>

subsection \<open>What a pattern matches\<close>

lemma isSlash_canonicalize: "isSlash (canonicalize c) \<longleftrightarrow> isSlash c"
proof (cases "0x61 \<le> c \<and> c \<le> 0x7A")
  case True
  have "c - 0x20 = 0x2F \<Longrightarrow> c = 0x4F"
  proof -
    assume "c - 0x20 = 0x2F"
    then have "c - 0x20 + 0x20 = 0x2F + 0x20" by simp
    then show "c = 0x4F" by simp
  qed
  with True show ?thesis by (auto simp: isSlash_def canonicalize_def)
next
  case False
  then show ?thesis by (auto simp: canonicalize_def)
qed

lemma stripTrailing_append:
  assumes "H \<noteq> []" "\<not> isSlash (last H)" "list_all isSlash S"
  shows "stripTrailing (H @ S) = H"
proof -
  have "dropWhile isSlash (rev S) = []"
    using assms(3) by (simp add: list_all_iff)
  moreover have "dropWhile isSlash (rev H) = rev H"
    using assms(1,2) by (cases "rev H") (auto simp: hd_rev dest: arg_cong [where f = hd])
  ultimately show ?thesis
    using assms(3) by (simp add: stripTrailing_def dropWhile_append list_all_iff)
qed

lemma stripTrailing_decompose:
  "\<exists>S. pathname = stripTrailing pathname @ S \<and> list_all isSlash S"
proof -
  have "rev pathname = takeWhile isSlash (rev pathname) @ dropWhile isSlash (rev pathname)"
    by simp
  then have "pathname = rev (dropWhile isSlash (rev pathname)) @ rev (takeWhile isSlash (rev pathname))"
    by (metis rev_append rev_rev_ident)
  moreover have "list_all isSlash (rev (takeWhile isSlash (rev pathname)))"
    by (auto simp: list_all_iff dest: set_takeWhileD)
  ultimately show ?thesis unfolding stripTrailing_def by blast
qed

lemma last_map_canonicalize:
  assumes "map canonicalize H = map canonicalize P" "P \<noteq> []" "\<not> isSlash (last P)"
  shows "H \<noteq> [] \<and> \<not> isSlash (last H)"
proof -
  from assms(1,2) have ne: "H \<noteq> []" by auto
  then have "canonicalize (last H) = last (map canonicalize H)" by (simp add: last_map)
  also have "\<dots> = canonicalize (last P)" using assms(1,2) by (simp add: last_map)
  finally have "isSlash (canonicalize (last H)) = isSlash (canonicalize (last P))" by simp
  with assms(3) ne show ?thesis by (simp add: isSlash_canonicalize)
qed

text \<open>
  A pattern without a trailing slash matches a path exactly when the path without its
  trailing slashes equals the pattern up to the case of ASCII letters.
\<close>

lemma static_match_key:
  assumes "P \<noteq> []" "\<not> isSlash (last P)"
  shows "map canonicalize (take (length P) d) = map canonicalize P \<and>
         list_all isSlash (drop (length P) d) \<longleftrightarrow>
         route_key d = map canonicalize P"
proof
  assume m: "map canonicalize (take (length P) d) = map canonicalize P \<and>
             list_all isSlash (drop (length P) d)"
  then have "take (length P) d \<noteq> [] \<and> \<not> isSlash (last (take (length P) d))"
    using assms by (intro last_map_canonicalize) simp_all
  with m have "stripTrailing (take (length P) d @ drop (length P) d) = take (length P) d"
    by (intro stripTrailing_append) simp_all
  with m show "route_key d = map canonicalize P"
    by (simp add: route_key_def)
next
  assume k: "route_key d = map canonicalize P"
  obtain S where S: "d = stripTrailing d @ S" "list_all isSlash S"
    using stripTrailing_decompose by blast
  from k have len: "length (stripTrailing d) = length P"
    unfolding route_key_def by (metis length_map)
  from S(1) len have "take (length P) d = stripTrailing d" "drop (length P) d = S"
    by (metis append_eq_conv_conj)+
  with k S(2) show "map canonicalize (take (length P) d) = map canonicalize P \<and>
                    list_all isSlash (drop (length P) d)"
    by (simp add: route_key_def)
qed

lemmas router_eval = js_def matchPath_def patternLiteral_def endsWithStar_def
  stripTrailing_def isSlash_def canonicalize_def

lemma matchPath_dashboard:
  "matchPath (js ''/dashboard'') d \<longleftrightarrow> route_key d = js ''/DASHBOARD''"
proof -
  have lit: "patternLiteral (js ''/dashboard'') = js ''/dashboard''"
    and star: "\<not> endsWithStar (js ''/dashboard'')"
    and up: "map canonicalize (js ''/dashboard'') = js ''/DASHBOARD''"
    and ne: "js ''/dashboard'' \<noteq> []" "\<not> isSlash (last (js ''/dashboard''))"
    by (simp_all add: router_eval)
  show ?thesis
    unfolding matchPath_def Let_def lit
    using static_match_key [OF ne, of d] star by (simp only: up if_False)
qed

lemma matchPath_tournaments:
  "matchPath (js ''/tournaments'') d \<longleftrightarrow> route_key d = js ''/TOURNAMENTS''"
proof -
  have lit: "patternLiteral (js ''/tournaments'') = js ''/tournaments''"
    and star: "\<not> endsWithStar (js ''/tournaments'')"
    and up: "map canonicalize (js ''/tournaments'') = js ''/TOURNAMENTS''"
    and ne: "js ''/tournaments'' \<noteq> []" "\<not> isSlash (last (js ''/tournaments''))"
    by (simp_all add: router_eval)
  show ?thesis
    unfolding matchPath_def Let_def lit
    using static_match_key [OF ne, of d] star by (simp only: up if_False)
qed

lemma matchPath_login:
  "matchPath (js ''/login'') d \<longleftrightarrow> route_key d = js ''/LOGIN''"
proof -
  have lit: "patternLiteral (js ''/login'') = js ''/login''"
    and star: "\<not> endsWithStar (js ''/login'')"
    and up: "map canonicalize (js ''/login'') = js ''/LOGIN''"
    and ne: "js ''/login'' \<noteq> []" "\<not> isSlash (last (js ''/login''))"
    by (simp_all add: router_eval)
  show ?thesis
    unfolding matchPath_def Let_def lit
    using static_match_key [OF ne, of d] star by (simp only: up if_False)
qed

lemma matchPath_root:
  "matchPath (js ''/'') d \<longleftrightarrow> d \<noteq> [] \<and> list_all isSlash d"
proof -
  have lit: "patternLiteral (js ''/'') = [0x2F]"
    and star: "\<not> endsWithStar (js ''/'')"
    by (simp_all add: router_eval)
  show ?thesis
    unfolding matchPath_def Let_def lit using star
    by (cases d) (auto simp: isSlash_def canonicalize_def)
qed

lemma matchPath_splat:
  "matchPath (js ''*'') d \<longleftrightarrow>
     d \<noteq> [] \<and> isSlash (hd d) \<and> \<not> list_ex isLineTerminator (tl d)"
proof -
  have lit: "patternLiteral (js ''*'') = [0x2F]"
    and star: "endsWithStar (js ''*'')"
    by (simp_all add: router_eval)
  have c: "canonicalize c = 0x2F \<longleftrightarrow> c = 0x2F" for c
    using isSlash_canonicalize [of c] by (simp add: isSlash_def)
  have c0: "canonicalize 0x2F = 0x2F"
    by (simp add: canonicalize_def)
  show ?thesis
    unfolding matchPath_def Let_def lit using star
    by (cases d) (simp_all add: isSlash_def c c0)
qed

lemma route_key_slashes: "list_all isSlash d \<Longrightarrow> route_key d = []"
  by (simp add: route_key_def stripTrailing_def list_all_iff)

lemma decodeURIComponent_plain: "0x25 \<notin> set s \<Longrightarrow> decodeURIComponent s = Some s"
  by (induction s) auto

lemma split_slash_nonempty: "split_slash s \<noteq> []"
  by (induction s) (auto split: list.splits)

lemma join_split_slash: "join_slash (split_slash s) = s"
proof (induction s)
  case Nil
  show ?case by simp
next
  case (Cons c s)
  obtain seg segs where sp: "split_slash s = seg # segs"
    using split_slash_nonempty [of s] by (cases "split_slash s") auto
  with Cons show ?case
    by (cases segs) (auto simp: isSlash_def)
qed

lemma split_slash_segments:
  "seg \<in> set (split_slash s) \<Longrightarrow> set seg \<subseteq> set s \<and> \<not> list_ex isSlash seg"
proof (induction s arbitrary: seg)
  case Nil
  then show ?case by simp
next
  case (Cons c s)
  obtain x xs where sp: "split_slash s = x # xs"
    using split_slash_nonempty [of s] by (cases "split_slash s") auto
  show ?case
  proof (cases "isSlash c")
    case True
    with Cons show ?thesis by auto
  next
    case False
    with Cons.prems sp have "seg = c # x \<or> seg \<in> set xs" by simp
    then show ?thesis
    proof
      assume "seg = c # x"
      moreover have "set x \<subseteq> set s \<and> \<not> list_ex isSlash x"
        using Cons.IH [of x] sp by simp
      ultimately show ?thesis using False by auto
    next
      assume "seg \<in> set xs"
      then have "set seg \<subseteq> set s \<and> \<not> list_ex isSlash seg"
        using Cons.IH [of seg] sp by simp
      then show ?thesis by auto
    qed
  qed
qed

lemma those_map_Some: "(\<And>x. x \<in> set xs \<Longrightarrow> f x = Some x) \<Longrightarrow> those (map f xs) = Some xs"
  by (induction xs) auto

lemma replaceSlash_plain: "\<not> list_ex isSlash seg \<Longrightarrow> replaceSlash seg = seg"
  by (induction seg) (auto simp: replaceSlash_def)

text \<open>A path without a percent sign is its own decoding.\<close>

lemma decodePath_plain:
  assumes "0x25 \<notin> set s"
  shows "decodePath s = s"
proof -
  have "those (map decodeURIComponent (split_slash s)) = Some (split_slash s)"
    using assms by (intro those_map_Some decodeURIComponent_plain)
      (auto dest: split_slash_segments)
  moreover have "map replaceSlash (split_slash s) = split_slash s"
    by (rule map_idI) (auto dest: split_slash_segments intro: replaceSlash_plain)
  ultimately show ?thesis
    by (simp add: decodePath_def join_split_slash)
qed

lemma decodedPathname_plain:
  "p \<noteq> [] \<Longrightarrow> 0x25 \<notin> set p \<Longrightarrow> decodedPathname p = p"
  by (simp add: decodedPathname_def decodePath_plain)

subsection \<open>What a table resolves\<close>

lemma hash_branches:
  "matchRouteBranches App_HashRouter_routes d =
     (if d \<noteq> [] \<and> list_all isSlash d then Some (Navigate (js ''/dashboard''))
      else if route_key d = js ''/DASHBOARD'' then Some (Screen Dashboard)
      else if route_key d = js ''/TOURNAMENTS'' then Some (Screen Tournaments)
      else if route_key d = js ''/LOGIN'' then Some (Screen Login)
      else if d \<noteq> [] \<and> isSlash (hd d) \<and> \<not> list_ex isLineTerminator (tl d)
        then Some (Navigate (js ''/dashboard''))
      else None)"
  unfolding App_HashRouter_routes_def
  by (simp only: matchRouteBranches.simps matchPath_root matchPath_dashboard
        matchPath_tournaments matchPath_login matchPath_splat)

lemma browser_branches:
  "matchRouteBranches App_BrowserRouter_routes d =
     (if d \<noteq> [] \<and> list_all isSlash d then Some (Navigate (js ''/dashboard''))
      else if route_key d = js ''/LOGIN'' then Some (Screen Login)
      else if route_key d = js ''/DASHBOARD'' then Some (Screen Dashboard)
      else if route_key d = js ''/TOURNAMENTS'' then Some (Screen Tournaments)
      else None)"
  unfolding App_BrowserRouter_routes_def
  by (simp only: matchRouteBranches.simps matchPath_root matchPath_dashboard
        matchPath_tournaments matchPath_login)

lemma named_key_not_slashes:
  "route_key d = js ''/DASHBOARD'' \<or> route_key d = js ''/TOURNAMENTS'' \<or>
   route_key d = js ''/LOGIN'' \<Longrightarrow> \<not> list_all isSlash d"
  by (auto simp: js_def dest: route_key_slashes)

lemma named_keys_distinct:
  "js ''/DASHBOARD'' \<noteq> js ''/TOURNAMENTS''" "js ''/DASHBOARD'' \<noteq> js ''/LOGIN''"
  "js ''/TOURNAMENTS'' \<noteq> js ''/LOGIN''"
  by (simp_all add: js_def)

lemma named_paths_decoded:
  "decodedPathname (js ''/'') = js ''/''"
  "decodedPathname (js ''/dashboard'') = js ''/dashboard''"
  "decodedPathname (js ''/tournaments'') = js ''/tournaments''"
  "decodedPathname (js ''/login'') = js ''/login''"
  by (rule decodedPathname_plain; simp add: js_def)+

lemma named_paths_keys:
  "route_key (js ''/dashboard'') = js ''/DASHBOARD''"
  "route_key (js ''/tournaments'') = js ''/TOURNAMENTS''"
  "route_key (js ''/login'') = js ''/LOGIN''"
  by (simp_all add: route_key_def router_eval)

text \<open>
  Tried by rank, the named patterns before the root and the root before the splat, the
  routes give the same match as tried in the order of the table.
\<close>

lemma ranked_order:
  "matchRouteBranches
     [(js ''/dashboard'', Screen Dashboard), (js ''/tournaments'', Screen Tournaments),
      (js ''/login'', Screen Login), (js ''/'', Navigate (js ''/dashboard'')),
      (js ''*'', Navigate (js ''/dashboard''))] d =
   matchRouteBranches App_HashRouter_routes d"
  "matchRouteBranches
     [(js ''/login'', Screen Login), (js ''/dashboard'', Screen Dashboard),
      (js ''/tournaments'', Screen Tournaments), (js ''/'', Navigate (js ''/dashboard''))] d =
   matchRouteBranches App_BrowserRouter_routes d"
  using named_key_not_slashes [of d]
  by (auto simp: hash_branches browser_branches matchPath_root matchPath_dashboard
        matchPath_tournaments matchPath_login matchPath_splat)

lemma named_like_matches:
  assumes "route_key (decodedPathname p) = k"
    and "k = js ''/DASHBOARD'' \<or> k = js ''/TOURNAMENTS'' \<or> k = js ''/LOGIN''"
  shows "matchRoutes App_HashRouter_routes p =
           Some (Screen (if k = js ''/DASHBOARD'' then Dashboard
                         else if k = js ''/TOURNAMENTS'' then Tournaments else Login))"
    and "matchRoutes App_BrowserRouter_routes p =
           Some (Screen (if k = js ''/DASHBOARD'' then Dashboard
                         else if k = js ''/TOURNAMENTS'' then Tournaments else Login))"
proof -
  have s: "\<not> list_all isSlash (decodedPathname p)"
    using assms by (intro named_key_not_slashes) blast
  show "matchRoutes App_HashRouter_routes p =
           Some (Screen (if k = js ''/DASHBOARD'' then Dashboard
                         else if k = js ''/TOURNAMENTS'' then Tournaments else Login))"
    using assms s named_keys_distinct
    by (auto simp: matchRoutes_def hash_branches)
  show "matchRoutes App_BrowserRouter_routes p =
           Some (Screen (if k = js ''/DASHBOARD'' then Dashboard
                         else if k = js ''/TOURNAMENTS'' then Tournaments else Login))"
    using assms s named_keys_distinct
    by (auto simp: matchRoutes_def browser_branches)
qed

lemma hash_fallback:
  assumes "route_key (decodedPathname p) \<noteq> js ''/DASHBOARD''"
    "route_key (decodedPathname p) \<noteq> js ''/TOURNAMENTS''"
    "route_key (decodedPathname p) \<noteq> js ''/LOGIN''"
    "decodedPathname p \<noteq> []" "isSlash (hd (decodedPathname p))"
    "\<not> list_ex isLineTerminator (decodedPathname p)"
  shows "matchRoutes App_HashRouter_routes p = Some (Navigate (js ''/dashboard''))"
proof -
  have "\<not> list_ex isLineTerminator (tl (decodedPathname p))"
    using assms(4,6) by (cases "decodedPathname p") auto
  with assms show ?thesis
    by (simp add: matchRoutes_def hash_branches)
qed

lemma dashboard_shown:
  "display (Suc fuel) App_HashRouter_routes (js ''/dashboard'') =
     Some (js ''/dashboard'', Some Dashboard)"
  "display (Suc fuel) App_BrowserRouter_routes (js ''/dashboard'') =
     Some (js ''/dashboard'', Some Dashboard)"
  using named_like_matches [of "js ''/dashboard''" "js ''/DASHBOARD''"]
  by (simp_all add: named_paths_decoded named_paths_keys)

lemma dashboard_matches:
  "matchRoutes App_HashRouter_routes (js ''/dashboard'') = Some (Screen Dashboard)"
  "matchRoutes App_BrowserRouter_routes (js ''/dashboard'') = Some (Screen Dashboard)"
  using named_like_matches [of "js ''/dashboard''" "js ''/DASHBOARD''"]
  by (simp_all add: named_paths_decoded named_paths_keys)

lemma root_redirects:
  "matchRoutes App_HashRouter_routes (js ''/'') = Some (Navigate (js ''/dashboard''))"
  "matchRoutes App_BrowserRouter_routes (js ''/'') = Some (Navigate (js ''/dashboard''))"
proof -
  have "js ''/'' \<noteq> [] \<and> list_all isSlash (js ''/'')"
    by (simp add: js_def isSlash_def)
  then show "matchRoutes App_HashRouter_routes (js ''/'') = Some (Navigate (js ''/dashboard''))"
    "matchRoutes App_BrowserRouter_routes (js ''/'') = Some (Navigate (js ''/dashboard''))"
    by (simp_all add: matchRoutes_def named_paths_decoded hash_branches browser_branches)
qed

text \<open>A percent-encoded letter is decoded before the path is matched.\<close>

lemma percent_encoded_login:
  "decodedPathname (js ''/%6Cogin'') = js ''/login'' \<and>
   matchRoutes App_HashRouter_routes (js ''/%6Cogin'') = Some (Screen Login) \<and>
   matchRoutes App_BrowserRouter_routes (js ''/%6Cogin'') = Some (Screen Login)"
proof -
  have d: "decodedPathname (js ''/%6Cogin'') = js ''/login''"
    by (simp add: decodedPathname_def decodePath_def js_def isSlash_def parseHexOctet_def
          hexDigit_def leadingOnes_def replaceSlash_def)
  with named_like_matches [of "js ''/%6Cogin''" "js ''/LOGIN''"] named_keys_distinct
  show ?thesis by (simp add: named_paths_keys)
qed

text \<open>
  The second \<open>App\<close> has no splat route, where the first has one (\<^verbatim>\<open>App.tsx\<close>, under the
  comment ``fallback for unknown paths''): at \<^verbatim>\<open>/settings\<close> no route of the second table
  matches, the location stays and no screen is shown, while the first table redirects to
  \<^verbatim>\<open>/dashboard\<close>.
\<close>

lemma BrowserRouter_no_fallback:
  "matchRoutes App_BrowserRouter_routes (js ''/settings'') = None \<and>
   display 3 App_BrowserRouter_routes (js ''/settings'') = Some (js ''/settings'', None) \<and>
   matchRoutes App_HashRouter_routes (js ''/settings'') = Some (Navigate (js ''/dashboard''))"
proof -
  have d: "decodedPathname (js ''/settings'') = js ''/settings''"
    by (rule decodedPathname_plain; simp add: js_def)
  have k: "route_key (js ''/settings'') = js ''/SETTINGS''"
    by (simp add: route_key_def router_eval)
  have ne: "js ''/SETTINGS'' \<noteq> js ''/DASHBOARD''" "js ''/SETTINGS'' \<noteq> js ''/TOURNAMENTS''"
    "js ''/SETTINGS'' \<noteq> js ''/LOGIN''"
    by (simp_all add: js_def)
  have s: "\<not> list_all isSlash (js ''/settings'')" "js ''/settings'' \<noteq> []"
    "isSlash (hd (js ''/settings''))" "\<not> list_ex isLineTerminator (tl (js ''/settings''))"
    by (simp_all add: js_def isSlash_def isLineTerminator_def)
  have b: "matchRoutes App_BrowserRouter_routes (js ''/settings'') = None"
    by (simp add: matchRoutes_def d browser_branches k ne s)
  have h: "matchRoutes App_HashRouter_routes (js ''/settings'') = Some (Navigate (js ''/dashboard''))"
    by (simp add: matchRoutes_def d hash_branches k ne s)
  from b h show ?thesis by (simp add: numeral_3_eq_3)
qed

text \<open>
  C9, as stated, fails on the route table of \<^verbatim>\<open>desktop/src/App.tsx\<close>: the path
  \<^verbatim>\<open>/LOGIN\<close> is none of the four paths that the claim names, and it resolves to the Login
  screen, not to a redirect to the Dashboard screen, since no route is case-sensitive.
\<close>

theorem HashRouter_LOGIN_counterexample:
  "js ''/LOGIN'' \<noteq> js ''/'' \<and> js ''/LOGIN'' \<noteq> js ''/login'' \<and>
   js ''/LOGIN'' \<noteq> js ''/dashboard'' \<and> js ''/LOGIN'' \<noteq> js ''/tournaments'' \<and>
   matchRoutes App_HashRouter_routes (js ''/LOGIN'') = Some (Screen Login) \<and>
   matchRoutes App_HashRouter_routes (js ''/LOGIN'') \<noteq> Some (Navigate (js ''/dashboard'')) \<and>
   display 3 App_HashRouter_routes (js ''/LOGIN'') = Some (js ''/LOGIN'', Some Login)"
proof -
  have d: "decodedPathname (js ''/LOGIN'') = js ''/LOGIN''"
    by (rule decodedPathname_plain; simp add: js_def)
  have k: "route_key (js ''/LOGIN'') = js ''/LOGIN''"
    by (simp add: route_key_def router_eval)
  have s: "\<not> list_all isSlash (js ''/LOGIN'')"
    by (simp add: js_def isSlash_def)
  have m: "matchRoutes App_HashRouter_routes (js ''/LOGIN'') = Some (Screen Login)"
    by (simp add: matchRoutes_def d hash_branches k s named_keys_distinct [symmetric])
  have ne: "js ''/LOGIN'' \<noteq> js ''/'' \<and> js ''/LOGIN'' \<noteq> js ''/login'' \<and>
      js ''/LOGIN'' \<noteq> js ''/dashboard'' \<and> js ''/LOGIN'' \<noteq> js ''/tournaments''"
    by (simp add: js_def)
  from m ne show ?thesis by (simp add: numeral_3_eq_3)
qed

text \<open>
  C9, amended.  A path resolves by its normal form: the decoded path without its trailing
  slashes, its ASCII letters in upper case.  In both route tables a path whose normal form is
  that of \<^verbatim>\<open>/dashboard\<close>, \<^verbatim>\<open>/tournaments\<close> or \<^verbatim>\<open>/login\<close> resolves to the screen of that
  route, the three named paths among them, and the root path resolves to a redirect to
  \<^verbatim>\<open>/dashboard\<close>, where the Dashboard screen is shown.  In the route table of
  \<^verbatim>\<open>desktop/src/App.tsx\<close> every other path that, decoded, begins with a slash and holds no
  line terminator resolves to that redirect as well.  A path without a percent sign is its
  own decoding.  Enough fuel is one match more than the number of redirects.
\<close>

theorem route_tables:
  "(route_key (decodedPathname p) = js ''/DASHBOARD'' \<longrightarrow>
      display (Suc fuel) App_HashRouter_routes p = Some (p, Some Dashboard) \<and>
      display (Suc fuel) App_BrowserRouter_routes p = Some (p, Some Dashboard)) \<and>
   (route_key (decodedPathname p) = js ''/TOURNAMENTS'' \<longrightarrow>
      display (Suc fuel) App_HashRouter_routes p = Some (p, Some Tournaments) \<and>
      display (Suc fuel) App_BrowserRouter_routes p = Some (p, Some Tournaments)) \<and>
   (route_key (decodedPathname p) = js ''/LOGIN'' \<longrightarrow>
      display (Suc fuel) App_HashRouter_routes p = Some (p, Some Login) \<and>
      display (Suc fuel) App_BrowserRouter_routes p = Some (p, Some Login)) \<and>
   (route_key (decodedPathname p) \<noteq> js ''/DASHBOARD'' \<and>
    route_key (decodedPathname p) \<noteq> js ''/TOURNAMENTS'' \<and>
    route_key (decodedPathname p) \<noteq> js ''/LOGIN'' \<and>
    decodedPathname p \<noteq> [] \<and> isSlash (hd (decodedPathname p)) \<and>
    \<not> list_ex isLineTerminator (decodedPathname p) \<longrightarrow>
      matchRoutes App_HashRouter_routes p = Some (Navigate (js ''/dashboard'')) \<and>
      display (Suc (Suc fuel)) App_HashRouter_routes p =
        Some (js ''/dashboard'', Some Dashboard)) \<and>
   (p \<noteq> [] \<and> 0x25 \<notin> set p \<longrightarrow> decodedPathname p = p) \<and>
   display (Suc (Suc fuel)) App_HashRouter_routes (js ''/'') =
     Some (js ''/dashboard'', Some Dashboard) \<and>
   display (Suc (Suc fuel)) App_BrowserRouter_routes (js ''/'') =
     Some (js ''/dashboard'', Some Dashboard) \<and>
   display (Suc fuel) App_HashRouter_routes (js ''/dashboard'') =
     Some (js ''/dashboard'', Some Dashboard) \<and>
   display (Suc fuel) App_BrowserRouter_routes (js ''/dashboard'') =
     Some (js ''/dashboard'', Some Dashboard) \<and>
   display (Suc fuel) App_HashRouter_routes (js ''/tournaments'') =
     Some (js ''/tournaments'', Some Tournaments) \<and>
   display (Suc fuel) App_BrowserRouter_routes (js ''/tournaments'') =
     Some (js ''/tournaments'', Some Tournaments) \<and>
   display (Suc fuel) App_HashRouter_routes (js ''/login'') =
     Some (js ''/login'', Some Login) \<and>
   display (Suc fuel) App_BrowserRouter_routes (js ''/login'') =
     Some (js ''/login'', Some Login)"
proof -
  have like: "display (Suc n) App_HashRouter_routes q = Some (q, Some s) \<and>
              display (Suc n) App_BrowserRouter_routes q = Some (q, Some s)"
    if "route_key (decodedPathname q) = k"
      and "k = js ''/DASHBOARD'' \<or> k = js ''/TOURNAMENTS'' \<or> k = js ''/LOGIN''"
      and "s = (if k = js ''/DASHBOARD'' then Dashboard
                else if k = js ''/TOURNAMENTS'' then Tournaments else Login)"
    for q k s n
    using named_like_matches [OF that(1,2)] that(3) by simp
  have dash: "route_key (decodedPathname p) = js ''/DASHBOARD'' \<longrightarrow>
      display (Suc fuel) App_HashRouter_routes p = Some (p, Some Dashboard) \<and>
      display (Suc fuel) App_BrowserRouter_routes p = Some (p, Some Dashboard)"
    by (auto dest!: like [where s = Dashboard and n = fuel])
  have tour: "route_key (decodedPathname p) = js ''/TOURNAMENTS'' \<longrightarrow>
      display (Suc fuel) App_HashRouter_routes p = Some (p, Some Tournaments) \<and>
      display (Suc fuel) App_BrowserRouter_routes p = Some (p, Some Tournaments)"
    using named_keys_distinct by (auto dest!: like [where s = Tournaments and n = fuel])
  have login: "route_key (decodedPathname p) = js ''/LOGIN'' \<longrightarrow>
      display (Suc fuel) App_HashRouter_routes p = Some (p, Some Login) \<and>
      display (Suc fuel) App_BrowserRouter_routes p = Some (p, Some Login)"
    using named_keys_distinct by (auto dest!: like [where s = Login and n = fuel])
  have other: "route_key (decodedPathname p) \<noteq> js ''/DASHBOARD'' \<and>
    route_key (decodedPathname p) \<noteq> js ''/TOURNAMENTS'' \<and>
    route_key (decodedPathname p) \<noteq> js ''/LOGIN'' \<and>
    decodedPathname p \<noteq> [] \<and> isSlash (hd (decodedPathname p)) \<and>
    \<not> list_ex isLineTerminator (decodedPathname p) \<longrightarrow>
      matchRoutes App_HashRouter_routes p = Some (Navigate (js ''/dashboard'')) \<and>
      display (Suc (Suc fuel)) App_HashRouter_routes p =
        Some (js ''/dashboard'', Some Dashboard)"
    by (auto simp: hash_fallback dashboard_matches)
  have plain: "p \<noteq> [] \<and> 0x25 \<notin> set p \<longrightarrow> decodedPathname p = p"
    by (simp add: decodedPathname_plain)
  have root: "display (Suc (Suc fuel)) App_HashRouter_routes (js ''/'') =
       Some (js ''/dashboard'', Some Dashboard)"
    "display (Suc (Suc fuel)) App_BrowserRouter_routes (js ''/'') =
       Some (js ''/dashboard'', Some Dashboard)"
    by (simp_all add: root_redirects dashboard_matches)
  have named: "display (Suc fuel) App_HashRouter_routes (js ''/tournaments'') =
       Some (js ''/tournaments'', Some Tournaments)"
    "display (Suc fuel) App_BrowserRouter_routes (js ''/tournaments'') =
       Some (js ''/tournaments'', Some Tournaments)"
    "display (Suc fuel) App_HashRouter_routes (js ''/login'') =
       Some (js ''/login'', Some Login)"
    "display (Suc fuel) App_BrowserRouter_routes (js ''/login'') =
       Some (js ''/login'', Some Login)"
    using like [of "js ''/tournaments''" "js ''/TOURNAMENTS''" Tournaments fuel]
      like [of "js ''/login''" "js ''/LOGIN''" Login fuel] named_keys_distinct
    by (simp_all add: named_paths_decoded named_paths_keys)
  from dash tour login other plain root named dashboard_shown [of fuel]
  show ?thesis by (intro conjI)
qed

text \<open>
  A path that differs from \<^verbatim>\<open>/login\<close> in letter case and a trailing slash, and a path that
  no named route matches.
\<close>

theorem route_tables_witness:
  "route_key (decodedPathname (js ''/Login/'')) = js ''/LOGIN'' \<and>
   display 1 App_HashRouter_routes (js ''/Login/'') = Some (js ''/Login/'', Some Login) \<and>
   display 1 App_BrowserRouter_routes (js ''/Login/'') = Some (js ''/Login/'', Some Login) \<and>
   decodedPathname (js ''/settings'') = js ''/settings'' \<and>
   route_key (js ''/settings'') = js ''/SETTINGS'' \<and>
   isSlash (hd (js ''/settings'')) \<and>
   \<not> list_ex isLineTerminator (js ''/settings'') \<and>
   matchRoutes App_HashRouter_routes (js ''/settings'') = Some (Navigate (js ''/dashboard'')) \<and>
   display 2 App_HashRouter_routes (js ''/settings'') = Some (js ''/dashboard'', Some Dashboard)"
proof -
  have d1: "decodedPathname (js ''/Login/'') = js ''/Login/''"
    and d2: "decodedPathname (js ''/settings'') = js ''/settings''"
    by (rule decodedPathname_plain; simp add: js_def)+
  have k1: "route_key (js ''/Login/'') = js ''/LOGIN''"
    and k2: "route_key (js ''/settings'') = js ''/SETTINGS''"
    by (simp_all add: route_key_def router_eval)
  have ne: "js ''/SETTINGS'' \<noteq> js ''/DASHBOARD''" "js ''/SETTINGS'' \<noteq> js ''/TOURNAMENTS''"
    "js ''/SETTINGS'' \<noteq> js ''/LOGIN''" "js ''/settings'' \<noteq> []"
    by (simp_all add: js_def)
  have s: "isSlash (hd (js ''/settings''))" "\<not> list_ex isLineTerminator (js ''/settings'')"
    by (simp_all add: js_def isSlash_def isLineTerminator_def)
  from route_tables [of "js ''/Login/''" 0] route_tables [of "js ''/settings''" 0]
       d1 d2 k1 k2 ne s
  show ?thesis by (simp add: numeral_2_eq_2)
qed

end
